theory Spec2Isabelle
  imports Main
begin

section \<open>Python string operations used by the downloader\<close>

text \<open>
  Python strings are modelled as \<open>string\<close> (lists of 8-bit characters); text outside
  that range is not represented. The operations below follow the behaviour of the
  \<open>str\<close> methods the script calls.
\<close>

definition startswith :: "string \<Rightarrow> string \<Rightarrow> bool" where
  "startswith s p = (take (length p) s = p)"

definition endswith :: "string \<Rightarrow> string \<Rightarrow> bool" where
  "endswith s p = (length p \<le> length s \<and> drop (length s - length p) s = p)"

text \<open>\<open>p in s\<close>: the substring test.\<close>

fun contains :: "string \<Rightarrow> string \<Rightarrow> bool" where
  "contains [] p = (p = [])"
| "contains (c # cs) p = (startswith (c # cs) p \<or> contains cs p)"

text \<open>
  \<open>s.replace(old, new)\<close>: every non-overlapping occurrence of \<open>old\<close>, found left to
  right, is replaced; an empty \<open>old\<close> inserts \<open>new\<close> around every character.
\<close>

function replace :: "string \<Rightarrow> string \<Rightarrow> string \<Rightarrow> string" where
  "replace [] old new = (if old = [] then new else [])"
| "replace (c # cs) old new =
     (if old = [] then new @ c # replace cs old new
      else if startswith (c # cs) old
        then new @ replace (drop (length old) (c # cs)) old new
      else c # replace cs old new)"
  by pat_completeness auto
termination
  by (relation "measure (\<lambda>(s, old, new). length s)") auto

text \<open>\<open>s.split(sep)\<close> for a one-character separator; the result is never empty.\<close>

fun split :: "string \<Rightarrow> char \<Rightarrow> string list" where
  "split [] sep = [[]]"
| "split (c # cs) sep =
     (if c = sep then [] # split cs sep
      else (case split cs sep of
              [] \<Rightarrow> [[c]]
            | p # ps \<Rightarrow> (c # p) # ps))"

text \<open>\<open>s.rsplit(sep, 1)[0]\<close>: what precedes the last separator, or all of \<open>s\<close>.\<close>

definition rsplit_head :: "string \<Rightarrow> char \<Rightarrow> string" where
  "rsplit_head s sep =
     (if sep \<in> set s then rev (tl (dropWhile (\<lambda>c. c \<noteq> sep) (rev s))) else s)"

text \<open>
  \<open>str.isspace\<close> on the characters below 256: tab, line feed, vertical tab, form feed,
  carriage return, the four separators 0x1C to 0x1F, space, 0x85 and 0xA0.
\<close>

definition is_space :: "char \<Rightarrow> bool" where
  "is_space c = ((of_char c :: nat) \<in> {9, 10, 11, 12, 13, 28, 29, 30, 31, 32, 133, 160})"

definition strip :: "string \<Rightarrow> string" where
  "strip s = rev (dropWhile is_space (rev (dropWhile is_space s)))"

text \<open>Truthiness of an optional string: \<open>None\<close> and the empty string are false.\<close>

fun truthy :: "string option \<Rightarrow> bool" where
  "truthy None = False"
| "truthy (Some s) = (s \<noteq> [])"

section \<open>The network\<close>

text \<open>
  A request is a HEAD or a GET of a URL. The reply either raises an exception in the
  client or is a response. Of a response the script reads the status code, the body as
  text, the \<open>Content-Length\<close> header (absent, a string that \<open>int\<close> accepts, or one on
  which \<open>int\<close> raises) and, for a streamed download, the chunks that
  \<open>iter_content\<close> yields and whether the stream ends normally or by an exception.
\<close>

datatype request = Head string | Get string

datatype clen = NoLength | Length int | BadLength

datatype response =
    Raised
  | Response (status_code: int) (body_text: string) (content_length: clen)
      (iter_content: "string list") (stream_ok: bool)

text \<open>
  The remote side may answer by the whole history of requests: \<open>net\<close> maps the requests
  made so far, the current one last, to the reply to the current one. The log of requests
  is the state threaded through every function that uses the network.
\<close>

type_synonym network = "request list \<Rightarrow> response"

definition request :: "network \<Rightarrow> request \<Rightarrow> request list \<Rightarrow> response \<times> request list" where
  "request net r lg = (net (lg @ [r]), lg @ [r])"

text \<open>A step inside the \<open>try\<close> block either raises or returns a value.\<close>

datatype 'a outcome = Raise | Return 'a

section \<open>get_video_and_audio_urls\<close>

definition dquote :: char where
  "dquote = CHR 0x22"

text \<open>
  \<open>re.search(r'URI="([^"]*_audio\.m3u8)"', playlist_content)\<close>, group 1. At the leftmost
  \<open>URI="\<close> the class \<open>[^"]*\<close> can only stop at the next double quote, so the group is the
  whole run up to that quote and must end in \<open>_audio.m3u8\<close>; otherwise the search goes on
  from the next position.
\<close>

fun audio_search :: "string \<Rightarrow> string option" where
  "audio_search [] = None"
| "audio_search (c # cs) =
     (if startswith (c # cs) (''URI='' @ [dquote]) then
        (let rest = drop 5 (c # cs);
             run = takeWhile (\<lambda>x. x \<noteq> dquote) rest
         in if length run < length rest \<and> endswith run ''_audio.m3u8''
            then Some run else audio_search cs)
      else audio_search cs)"

text \<open>
  The two segment loops (lines 46 to 52 for \<open>.cmfa\<close>, lines 68 to 74 for \<open>.cmfv\<close>): the
  first line with the suffix whose URL answers a HEAD with status 200.
\<close>

fun scan_segments ::
  "network \<Rightarrow> string \<Rightarrow> string \<Rightarrow> string list \<Rightarrow> request list
     \<Rightarrow> string option outcome \<times> request list" where
  "scan_segments net base_url suffix [] lg = (Return None, lg)"
| "scan_segments net base_url suffix (line # rest) lg =
     (if endswith line suffix then
        (case request net (Head (base_url @ strip line)) lg of
           (Raised, lg') \<Rightarrow> (Raise, lg')
         | (Response st _ _ _ _, lg') \<Rightarrow>
             if st = 200 then (Return (Some (base_url @ strip line)), lg')
             else scan_segments net base_url suffix rest lg')
      else scan_segments net base_url suffix rest lg)"

text \<open>Lines 38 to 52: the audio URL.\<close>

definition extract_audio ::
  "network \<Rightarrow> string \<Rightarrow> string \<Rightarrow> request list \<Rightarrow> string option outcome \<times> request list" where
  "extract_audio net base_url playlist_content lg =
     (case audio_search playlist_content of
        None \<Rightarrow> (Return None, lg)
      | Some g \<Rightarrow>
          (case request net (Get (base_url @ g)) lg of
             (Raised, lg') \<Rightarrow> (Raise, lg')
           | (Response st audio_content _ _ _, lg') \<Rightarrow>
               if st = 200
               then scan_segments net base_url ''.cmfa'' (split audio_content CHR 0x0A) lg'
               else (Return None, lg')))"

definition quality_order :: "string list" where
  "quality_order = [''720w'', ''540w'', ''360w'', ''240w'']"

definition marker :: "string \<Rightarrow> string" where
  "marker quality = ''_'' @ quality @ ''.m3u8''"

definition stream_url :: "string \<Rightarrow> string \<Rightarrow> string \<Rightarrow> string" where
  "stream_url base_url m3u8_url quality =
     base_url @ replace (last (split m3u8_url CHR ''/'')) ''.m3u8'' (marker quality)"

text \<open>Lines 64 to 74: one quality, its sub-manifest fetched and scanned.\<close>

definition try_quality ::
  "network \<Rightarrow> string \<Rightarrow> string \<Rightarrow> string \<Rightarrow> request list
     \<Rightarrow> string option outcome \<times> request list" where
  "try_quality net base_url m3u8_url quality lg =
     (case request net (Get (stream_url base_url m3u8_url quality)) lg of
        (Raised, lg') \<Rightarrow> (Raise, lg')
      | (Response st stream_content _ _ _, lg') \<Rightarrow>
          if st = 200
          then scan_segments net base_url ''.cmfv'' (split stream_content CHR 0x0A) lg'
          else (Return None, lg'))"

text \<open>Lines 58 to 77: the loop over the qualities, left by \<open>break\<close> once a URL is found.\<close>

fun scan_qualities ::
  "network \<Rightarrow> string \<Rightarrow> string \<Rightarrow> string \<Rightarrow> string list \<Rightarrow> request list
     \<Rightarrow> string option outcome \<times> request list" where
  "scan_qualities net base_url m3u8_url playlist_content [] lg = (Return None, lg)"
| "scan_qualities net base_url m3u8_url playlist_content (quality # rest) lg =
     (if contains playlist_content (marker quality) then
        (case try_quality net base_url m3u8_url quality lg of
           (Raise, lg') \<Rightarrow> (Raise, lg')
         | (Return video_url, lg') \<Rightarrow>
             if truthy video_url then (Return video_url, lg')
             else scan_qualities net base_url m3u8_url playlist_content rest lg')
      else scan_qualities net base_url m3u8_url playlist_content rest lg)"

text \<open>Lines 81 to 86: any line of the playlist that names an MP4 file.\<close>

fun scan_mp4 ::
  "network \<Rightarrow> string list \<Rightarrow> request list \<Rightarrow> string option outcome \<times> request list" where
  "scan_mp4 net [] lg = (Return None, lg)"
| "scan_mp4 net (line # rest) lg =
     (if contains line ''.mp4'' \<and> startswith line ''http'' then
        (case request net (Head (strip line)) lg of
           (Raised, lg') \<Rightarrow> (Raise, lg')
         | (Response st _ _ _ _, lg') \<Rightarrow>
             if st = 200 then (Return (Some (strip line)), lg')
             else scan_mp4 net rest lg')
      else scan_mp4 net rest lg)"

text \<open>Line 24: the rewritten URL of method 1.\<close>

definition simple_convert :: "string \<Rightarrow> string" where
  "simple_convert m3u8_url = replace (replace m3u8_url ''hls'' ''720p'') ''m3u8'' ''mp4''"

type_synonym streams = "string option \<times> string option \<times> string"

definition failed :: streams where
  "failed = (None, None, ''failed'')"

text \<open>Lines 79 to 92: method 3 when no video URL was found, then the result.\<close>

definition finish ::
  "network \<Rightarrow> string \<Rightarrow> string option \<Rightarrow> string option \<Rightarrow> request list
     \<Rightarrow> streams \<times> request list" where
  "finish net playlist_content audio_url video_url lg =
     (case (if \<not> truthy video_url
            then scan_mp4 net (split playlist_content CHR 0x0A) lg
            else (Return video_url, lg)) of
        (Raise, lg') \<Rightarrow> (failed, lg')
      | (Return video_url', lg') \<Rightarrow>
          if truthy video_url'
          then ((video_url', audio_url,
                 if truthy audio_url then ''hls_separate'' else ''hls_video_only''), lg')
          else (failed, lg'))"

text \<open>
  The whole function. Every exception raised inside the \<open>try\<close> block comes from a
  request and is caught at line 94, where the result is the failed triple.
\<close>

definition get_video_and_audio_urls ::
  "network \<Rightarrow> string \<Rightarrow> request list \<Rightarrow> streams \<times> request list" where
  "get_video_and_audio_urls net m3u8_url lg =
     (case request net (Head (simple_convert m3u8_url)) lg of
        (Raised, lg1) \<Rightarrow> (failed, lg1)
      | (Response st1 _ _ _ _, lg1) \<Rightarrow>
          if st1 = 200 then ((Some (simple_convert m3u8_url), None, ''simple''), lg1)
          else
            (case request net (Get m3u8_url) lg1 of
               (Raised, lg2) \<Rightarrow> (failed, lg2)
             | (Response st2 playlist_content _ _ _, lg2) \<Rightarrow>
                 if st2 \<noteq> 200 then (failed, lg2)
                 else
                   (let base_url = rsplit_head m3u8_url CHR ''/'' @ ''/'' in
                    case extract_audio net base_url playlist_content lg2 of
                      (Raise, lg3) \<Rightarrow> (failed, lg3)
                    | (Return audio_url, lg3) \<Rightarrow>
                        (case scan_qualities net base_url m3u8_url playlist_content
                                quality_order lg3 of
                           (Raise, lg4) \<Rightarrow> (failed, lg4)
                         | (Return video_url, lg4) \<Rightarrow>
                             finish net playlist_content audio_url video_url lg4))))"

section \<open>Files and the external tool\<close>

text \<open>
  The file system is a map from paths to contents. \<open>os.remove\<close> raises on a path that
  does not exist. A subprocess either cannot be started (\<open>subprocess.run\<close> raises) or
  exits with a return code, leaving the file system in some state of its own making.
\<close>

type_synonym filesystem = "string \<rightharpoonup> string"

definition os_remove :: "string \<Rightarrow> filesystem \<Rightarrow> filesystem outcome" where
  "os_remove path fs = (if fs path = None then Raise else Return (fs(path := None)))"

datatype process = ProcRaise | ProcExit int filesystem

text \<open>
  The state: the requests sent so far and the files on disk. The environment: the remote
  side, which paths can be opened for writing, the subprocess runner, whether
  \<open>os.makedirs\<close> succeeds, the formatted time of \<open>datetime.now()\<close>, and the page
  parser with its serialisation (declared after the document model).
\<close>

record world =
  sent :: "request list"
  files :: filesystem

section \<open>Parsed documents\<close>

text \<open>
  A parsed page is the list of its elements in document order, each with its tag name,
  its attributes and the text \<open>get_text()\<close> gives. \<open>find\<close> returns the first element
  with the tag name whose attributes match all the given ones. The attributes
  \<open>class\<close> and \<open>rel\<close> are multi-valued: the wanted string matches one of the
  whitespace-separated values, or all of them joined by single spaces.
\<close>

record element =
  tag :: string
  attrs :: "(string \<times> string) list"
  inner_text :: string

type_synonym soup = "element list"

fun split_where :: "(char \<Rightarrow> bool) \<Rightarrow> string \<Rightarrow> string list" where
  "split_where P [] = [[]]"
| "split_where P (c # cs) =
     (if P c then [] # split_where P cs
      else (case split_where P cs of
              [] \<Rightarrow> [[c]]
            | p # ps \<Rightarrow> (c # p) # ps))"

definition words :: "string \<Rightarrow> string list" where
  "words s = filter (\<lambda>w. w \<noteq> []) (split_where is_space s)"

fun join :: "string \<Rightarrow> string list \<Rightarrow> string" where
  "join sep [] = []"
| "join sep [x] = x"
| "join sep (x # y # ys) = x @ sep @ join sep (y # ys)"

definition attr_get :: "element \<Rightarrow> string \<Rightarrow> string option" where
  "attr_get e k = map_of (attrs e) k"

definition attr_matches :: "element \<Rightarrow> string \<times> string \<Rightarrow> bool" where
  "attr_matches e kv =
     (case attr_get e (fst kv) of
        None \<Rightarrow> False
      | Some actual \<Rightarrow>
          if fst kv = ''class'' \<or> fst kv = ''rel''
          then snd kv \<in> set (words actual) \<or> snd kv = join '' '' (words actual)
          else actual = snd kv)"

definition find_tag :: "soup \<Rightarrow> string \<Rightarrow> (string \<times> string) list \<Rightarrow> element option" where
  "find_tag doc name wanted =
     List.find (\<lambda>e. tag e = name \<and> list_all (attr_matches e) wanted) doc"

record env =
  net :: network
  can_open :: "string \<Rightarrow> bool"
  run :: "string list \<Rightarrow> filesystem \<Rightarrow> process"
  makedirs_ok :: "string \<Rightarrow> bool"
  now :: string
  parse :: "string \<Rightarrow> soup"
  render :: "soup \<Rightarrow> string"

section \<open>download_file\<close>

text \<open>Lines 152 to 156: the chunks written, with the file's content and the byte count.\<close>

fun write_chunks :: "string list \<Rightarrow> string \<times> nat \<Rightarrow> string \<times> nat" where
  "write_chunks [] acc = acc"
| "write_chunks (data # rest) (content, bytes_written) =
     (if data \<noteq> [] then write_chunks rest (content @ data, bytes_written + length data)
      else write_chunks rest (content, bytes_written))"

text \<open>
  Every exception (the request, \<open>int\<close> on the header, \<open>open\<close>, the stream,
  \<open>os.remove\<close>) is caught at line 164 and the result is \<open>False\<close>. Opening the file
  creates or truncates it; a stream that breaks leaves what was written so far.
\<close>

definition download_file :: "env \<Rightarrow> string \<Rightarrow> string \<Rightarrow> world \<Rightarrow> bool \<times> world" where
  "download_file e url filename w =
     (case request (net e) (Get url) (sent w) of
        (Raised, lg) \<Rightarrow> (False, w\<lparr>sent := lg\<rparr>)
      | (Response st _ cl chunks ok, lg) \<Rightarrow>
          if st \<noteq> 200 then (False, w\<lparr>sent := lg\<rparr>)
          else if cl = BadLength then (False, w\<lparr>sent := lg\<rparr>)
          else if \<not> can_open e filename then (False, w\<lparr>sent := lg\<rparr>)
          else
            (case write_chunks chunks ([], 0) of
               (content, bytes_written) \<Rightarrow>
                 (let fs = (files w)(filename \<mapsto> content) in
                  if \<not> ok then (False, w\<lparr>sent := lg, files := fs\<rparr>)
                  else if bytes_written = 0 then
                    (case os_remove filename fs of
                       Raise \<Rightarrow> (False, w\<lparr>sent := lg, files := fs\<rparr>)
                     | Return fs' \<Rightarrow> (False, w\<lparr>sent := lg, files := fs'\<rparr>))
                  else (True, w\<lparr>sent := lg, files := fs\<rparr>))))"

section \<open>merge_video_audio\<close>

definition squote :: char where
  "squote = CHR 0x27"

definition drawtext :: string where
  "drawtext = ''drawtext=text='' @ [squote] @ ''@faithandfork'' @ [squote]
     @ '':fontsize=20:fontcolor=white:x=(w-text_w)/2:y=h-th-200''
     @ '':box=1:boxcolor=black@0.5:boxborderw=5''"

definition version_cmd :: "string list" where
  "version_cmd = [''ffmpeg'', ''-version'']"

definition mux_cmd :: "string \<Rightarrow> string \<Rightarrow> string \<Rightarrow> string list" where
  "mux_cmd video_file audio_file output_file =
     [''ffmpeg'', ''-i'', video_file, ''-i'', audio_file, ''-c:a'', ''copy'',
      ''-c:v'', ''libx264'', ''-vf'', drawtext, ''-y'', output_file]"

definition merge_video_audio ::
  "env \<Rightarrow> string \<Rightarrow> string \<Rightarrow> string \<Rightarrow> world \<Rightarrow> bool \<times> world" where
  "merge_video_audio e video_file audio_file output_file w =
     (case run e version_cmd (files w) of
        ProcRaise \<Rightarrow> (False, w)
      | ProcExit rc fs1 \<Rightarrow>
          if rc \<noteq> 0 then (False, w\<lparr>files := fs1\<rparr>)
          else
            (case run e (mux_cmd video_file audio_file output_file) fs1 of
               ProcRaise \<Rightarrow> (False, w\<lparr>files := fs1\<rparr>)
             | ProcExit rc' fs2 \<Rightarrow>
                 if rc' = 0 then
                   (case os_remove video_file fs2 of
                      Raise \<Rightarrow> (False, w\<lparr>files := fs2\<rparr>)
                    | Return fs3 \<Rightarrow>
                        (case os_remove audio_file fs3 of
                           Raise \<Rightarrow> (False, w\<lparr>files := fs3\<rparr>)
                         | Return fs4 \<Rightarrow> (True, w\<lparr>files := fs4\<rparr>)))
                 else (False, w\<lparr>files := fs2\<rparr>)))"

section \<open>extract_pinterest_metadata\<close>

record pin_metadata =
  title :: "string option"
  description :: "string option"
  keyword_list :: "string list"

text \<open>An element is always true as a condition; \<open>.get("content")\<close> counts when not empty.\<close>

definition content_of :: "element option \<Rightarrow> string option \<Rightarrow> string option" where
  "content_of found current =
     (case found of
        None \<Rightarrow> current
      | Some e \<Rightarrow> if truthy (attr_get e ''content'') then attr_get e ''content'' else current)"

definition extract_title :: "soup \<Rightarrow> string option" where
  "extract_title doc =
     (let t1 = content_of (find_tag doc ''meta'' [(''property'', ''og:title'')]) None;
          t2 = (if \<not> truthy t1
                then content_of (find_tag doc ''meta'' [(''name'', ''twitter:title'')]) t1
                else t1)
      in if \<not> truthy t2
         then (case find_tag doc ''title'' [] of
                 None \<Rightarrow> t2
               | Some title_tag \<Rightarrow> Some (strip (inner_text title_tag)))
         else t2)"

definition extract_description :: "soup \<Rightarrow> string option" where
  "extract_description doc =
     (let d1 = content_of (find_tag doc ''meta'' [(''property'', ''og:description'')]) None
      in if \<not> truthy d1
         then content_of (find_tag doc ''meta'' [(''name'', ''description'')]) d1
         else d1)"

definition extract_keywords :: "soup \<Rightarrow> string list" where
  "extract_keywords doc =
     (case content_of (find_tag doc ''meta'' [(''name'', ''keywords'')]) None of
        None \<Rightarrow> []
      | Some c \<Rightarrow> map strip (filter (\<lambda>k. strip k \<noteq> []) (split c CHR '','')))"

definition extract_pinterest_metadata :: "soup \<Rightarrow> pin_metadata" where
  "extract_pinterest_metadata doc =
     \<lparr>title = extract_title doc,
      description = extract_description doc,
      keyword_list = extract_keywords doc\<rparr>"

section \<open>download_pinterest_video\<close>

text \<open>
  \<open>Exception\<close> carries the message of a \<open>raise Exception(...)\<close> of the script; the
  others are the exceptions that library calls and operations on \<open>None\<close> raise.
\<close>

datatype error = Exception string | RequestError | TypeError | KeyError | AttributeError | OSError

text \<open>
  \<open>re.search("url=(.*?)&", href_link)\<close>, group 1: after the leftmost \<open>url=\<close> the lazy
  \<open>.*?\<close> runs to the first \<open>&\<close> and cannot cross a line feed; if a line feed or the end
  comes first, the search goes on from the next position.
\<close>

fun url_param_search :: "string \<Rightarrow> string option" where
  "url_param_search [] = None"
| "url_param_search (c # cs) =
     (if startswith (c # cs) ''url='' then
        (let rest = drop 4 (c # cs);
             run = takeWhile (\<lambda>x. x \<noteq> CHR ''&'' \<and> x \<noteq> CHR 0x0A) rest
         in if startswith (drop (length run) rest) ''&''
            then Some run else url_param_search cs)
      else url_param_search cs)"

text \<open>Lines 218 to 225: a short link is resolved to the page it stands for.\<close>

definition resolve_short_url :: "env \<Rightarrow> string \<Rightarrow> world \<Rightarrow> (error + string) \<times> world" where
  "resolve_short_url e page_url w =
     (if contains page_url ''https://pin.it/'' then
        (case request (net e) (Get page_url) (sent w) of
           (Raised, lg) \<Rightarrow> (Inl RequestError, w\<lparr>sent := lg\<rparr>)
         | (Response st content _ _ _, lg) \<Rightarrow>
             if st \<noteq> 200
             then (Inl (Exception ''Invalid URL or network error''), w\<lparr>sent := lg\<rparr>)
             else
               (case find_tag (parse e content) ''link'' [(''rel'', ''alternate'')] of
                  None \<Rightarrow> (Inl TypeError, w\<lparr>sent := lg\<rparr>)
                | Some link \<Rightarrow>
                    (case attr_get link ''href'' of
                       None \<Rightarrow> (Inl KeyError, w\<lparr>sent := lg\<rparr>)
                     | Some href_link \<Rightarrow>
                         (case url_param_search href_link of
                            None \<Rightarrow> (Inl AttributeError, w\<lparr>sent := lg\<rparr>)
                          | Some u \<Rightarrow> (Inr u, w\<lparr>sent := lg\<rparr>)))))
      else (Inr page_url, w))"

text \<open>
  The longest prefix of a string that ends in a given suffix: where a greedy class
  followed by a literal stops.
\<close>

fun longest_ending :: "string \<Rightarrow> string \<Rightarrow> string option" where
  "longest_ending suffix [] = (if suffix = [] then Some [] else None)"
| "longest_ending suffix (c # cs) =
     (case longest_ending suffix cs of
        Some p \<Rightarrow> Some (c # p)
      | None \<Rightarrow> if startswith (c # cs) suffix then Some suffix else None)"

definition video_host :: string where
  "video_host = ''https://v1.pinimg.com/videos/''"

text \<open>
  The first match of \<open>https://v1\.pinimg\.com/videos/[^"\']*\<close> followed by the suffix
  \<open>\.m3u8\<close> or \<open>\.mp4\<close>: the class takes the run of characters that are not quotes and
  gives back until the suffix fits.
\<close>

fun find_video_link :: "string \<Rightarrow> string \<Rightarrow> string option" where
  "find_video_link suffix [] = None"
| "find_video_link suffix (c # cs) =
     (if startswith (c # cs) video_host then
        (case longest_ending suffix
                (takeWhile (\<lambda>x. x \<noteq> dquote \<and> x \<noteq> squote)
                   (drop (length video_host) (c # cs))) of
           Some m \<Rightarrow> Some (video_host @ m)
         | None \<Rightarrow> find_video_link suffix cs)
      else find_video_link suffix cs)"

text \<open>
  The first match of \<open>"key":"([^"]*)"\<close>, group 1: the run up to the next double quote,
  possibly empty.
\<close>

fun find_json_field :: "string \<Rightarrow> string \<Rightarrow> string option" where
  "find_json_field key [] = None"
| "find_json_field key (c # cs) =
     (let pat = [dquote] @ key @ [dquote] @ '':'' @ [dquote] in
      if startswith (c # cs) pat then
        (let rest = drop (length pat) (c # cs);
             run = takeWhile (\<lambda>x. x \<noteq> dquote) rest
         in if length run < length rest then Some run else find_json_field key cs)
      else find_json_field key cs)"

text \<open>Lines 254 to 265: the patterns in order, the first with a match decides.\<close>

definition scan_patterns :: "string \<Rightarrow> string option" where
  "scan_patterns page_text =
     (case find_video_link ''.m3u8'' page_text of
        Some m \<Rightarrow> Some m
      | None \<Rightarrow>
          (case find_video_link ''.mp4'' page_text of
             Some m \<Rightarrow> Some m
           | None \<Rightarrow>
               (case find_json_field ''videoUrl'' page_text of
                  Some m \<Rightarrow> Some m
                | None \<Rightarrow> find_json_field ''video_url'' page_text)))"

definition src_of :: "element option \<Rightarrow> string option \<Rightarrow> string option" where
  "src_of found current =
     (case found of
        None \<Rightarrow> current
      | Some e \<Rightarrow> if truthy (attr_get e ''src'') then attr_get e ''src'' else current)"

text \<open>Lines 238 to 265: the three ways to find the video URL in the page.\<close>

definition find_extract_url :: "env \<Rightarrow> soup \<Rightarrow> string option" where
  "find_extract_url e doc =
     (let u1 = src_of (find_tag doc ''video'' [(''class'', ''hwa kVc MIw L4E'')]) None;
          u2 = (if \<not> truthy u1 then src_of (find_tag doc ''video'' []) u1 else u1)
      in if \<not> truthy u2
         then (case scan_patterns (render e doc) of None \<Rightarrow> u2 | Some m \<Rightarrow> Some m)
         else u2)"

text \<open>Lines 227 to 268: the page fetched, its metadata and the URL of its video.\<close>

definition fetch_page ::
  "env \<Rightarrow> string \<Rightarrow> world \<Rightarrow> (error + pin_metadata \<times> string) \<times> world" where
  "fetch_page e page_url w =
     (case request (net e) (Get page_url) (sent w) of
        (Raised, lg) \<Rightarrow> (Inl RequestError, w\<lparr>sent := lg\<rparr>)
      | (Response st content _ _ _, lg) \<Rightarrow>
          if st \<noteq> 200
          then (Inl (Exception ''Failed to fetch Pinterest page''), w\<lparr>sent := lg\<rparr>)
          else
            (let doc = parse e content;
                 extract_url = find_extract_url e doc
             in if \<not> truthy extract_url
                then (Inl (Exception ''Could not find video URL on Pinterest page''),
                      w\<lparr>sent := lg\<rparr>)
                else (Inr (extract_pinterest_metadata doc, the extract_url),
                      w\<lparr>sent := lg\<rparr>)))"

text \<open>Lines 271 to 278: the video and audio URLs to download.\<close>

definition select_streams ::
  "env \<Rightarrow> string \<Rightarrow> world \<Rightarrow> (error + string \<times> string option \<times> string) \<times> world" where
  "select_streams e extract_url w =
     (if endswith extract_url ''.m3u8'' then
        (case get_video_and_audio_urls (net e) extract_url (sent w) of
           ((video_url, audio_url, method), lg) \<Rightarrow>
             if \<not> truthy video_url
             then (Inl (Exception ''Could not find downloadable video from playlist''),
                   w\<lparr>sent := lg\<rparr>)
             else (Inr (the video_url, audio_url, method), w\<lparr>sent := lg\<rparr>))
      else (Inr (extract_url, None, ''direct''), w))"

text \<open>\<open>os.path.join\<close> of two components on a POSIX system.\<close>

definition path_join :: "string \<Rightarrow> string \<Rightarrow> string" where
  "path_join a b =
     (if startswith b ''/'' then b
      else if a = [] \<or> endswith a ''/'' then a @ b
      else a @ ''/'' @ b)"

record download_result =
  filePath :: string
  metadata :: pin_metadata

text \<open>Lines 281 to 311: the downloads and the merge.\<close>

definition download_tracks ::
  "env \<Rightarrow> string \<Rightarrow> string \<Rightarrow> string option \<Rightarrow> pin_metadata \<Rightarrow> world
     \<Rightarrow> (error + download_result) \<times> world" where
  "download_tracks e output_dir video_url audio_url pin w =
     (if \<not> makedirs_ok e output_dir then (Inl OSError, w)
      else
        (let final_filename = path_join output_dir (now e @ ''.mp4'') in
         if truthy audio_url then
           (let video_filename = path_join output_dir (now e @ ''_video.mp4'');
                audio_filename = path_join output_dir (now e @ ''_audio.mp4'')
            in case download_file e video_url video_filename w of
                 (video_success, w1) \<Rightarrow>
                   if \<not> video_success
                   then (Inl (Exception ''Failed to download video track''), w1)
                   else
                     (case download_file e (the audio_url) audio_filename w1 of
                        (audio_success, w2) \<Rightarrow>
                          if \<not> audio_success then
                            (case os_remove video_filename (files w2) of
                               Raise \<Rightarrow> (Inl OSError, w2)
                             | Return fs \<Rightarrow>
                                 (Inl (Exception ''Failed to download audio track''),
                                  w2\<lparr>files := fs\<rparr>))
                          else
                            (case merge_video_audio e video_filename audio_filename
                                    final_filename w2 of
                               (merge_success, w3) \<Rightarrow>
                                 if \<not> merge_success
                                 then (Inr \<lparr>filePath = video_filename, metadata = pin\<rparr>, w3)
                                 else (Inr \<lparr>filePath = final_filename, metadata = pin\<rparr>, w3))))
         else
           (case download_file e video_url final_filename w of
              (success, w1) \<Rightarrow>
                if \<not> success
                then (Inl (Exception ''Failed to download video file''), w1)
                else (Inr \<lparr>filePath = final_filename, metadata = pin\<rparr>, w1))))"

definition download_pinterest_video ::
  "env \<Rightarrow> string \<Rightarrow> string \<Rightarrow> world \<Rightarrow> (error + download_result) \<times> world" where
  "download_pinterest_video e page_url output_dir w =
     (case resolve_short_url e page_url w of
        (Inl err, w1) \<Rightarrow> (Inl err, w1)
      | (Inr page_url', w1) \<Rightarrow>
          (case fetch_page e page_url' w1 of
             (Inl err, w2) \<Rightarrow> (Inl err, w2)
           | (Inr (pin, extract_url), w2) \<Rightarrow>
               (case select_streams e extract_url w2 of
                  (Inl err, w3) \<Rightarrow> (Inl err, w3)
                | (Inr (video_url, audio_url, method), w3) \<Rightarrow>
                    download_tracks e output_dir video_url audio_url pin w3)))"

section \<open>Assumptions on the external tool\<close>

text \<open>
  The external tool is not part of the script. Statements about files that stay on disk
  are made for a tool that leaves the path in question as it finds it, in every run.
\<close>

definition preserves :: "env \<Rightarrow> string \<Rightarrow> bool" where
  "preserves e path =
     (\<forall>cmd fs rc fs'. run e cmd fs = ProcExit rc fs' \<longrightarrow> fs' path = fs path)"

section \<open>Documents with a meta element that has content\<close>

text \<open>
  Some \<open>meta\<close> element of the document has the given attribute and a \<open>content\<close>
  attribute that is not empty.
\<close>

definition has_meta_content :: "soup \<Rightarrow> string \<times> string \<Rightarrow> bool" where
  "has_meta_content doc kv =
     list_ex (\<lambda>e. tag e = ''meta'' \<and> attr_matches e kv \<and> truthy (attr_get e ''content'')) doc"

section \<open>Concrete scenarios\<close>

text \<open>Small environments on which the properties below are evaluated.\<close>

definition ok :: "string \<Rightarrow> response" where
  "ok body = Response 200 body NoLength [] True"

definition not_found :: response where
  "not_found = Response 404 [] NoLength [] True"

definition c1_playlist :: string where
  "c1_playlist = ''v_720w.m3u8,v_540w.m3u8''"

definition c1_net :: network where
  "c1_net lg =
     (case last lg of
        Get u \<Rightarrow>
          if u = ''a/v.m3u8'' then ok c1_playlist
          else if u = ''a/v_540w.m3u8'' then ok ''s.cmfv''
          else not_found
      | Head u \<Rightarrow> if u = ''a/s.cmfv'' then ok [] else not_found)"

definition c3_playlist :: string where
  "c3_playlist = ''URI='' @ [dquote] @ ''x_audio.m3u8'' @ [dquote] @ [CHR 0x0A] @ ''http://c/v.mp4 ''"

definition c3_net :: network where
  "c3_net lg =
     (case last lg of
        Get u \<Rightarrow>
          if u = ''a/v.m3u8'' then ok c3_playlist
          else if u = ''a/x_audio.m3u8'' then ok ''s.cmfa''
          else not_found
      | Head u \<Rightarrow>
          if u = ''a/s.cmfa'' \<or> u = ''http://c/v.mp4'' then ok [] else not_found)"

definition c2_net :: network where
  "c2_net lg = ok []"

definition c4_net :: network where
  "c4_net lg = not_found"

text \<open>
  A page whose video element points to a playlist with an audio track and a 720w video
  stream; the two tracks answer as given. The tool is installed, exits with code 1 on
  every other run and touches no file.
\<close>

definition page_doc :: soup where
  "page_doc = [\<lparr>tag = ''video'', attrs = [(''src'', ''a/v.m3u8'')], inner_text = []\<rparr>]"

definition track_playlist :: string where
  "track_playlist = ''URI='' @ [dquote] @ ''x_audio.m3u8'' @ [dquote] @ '',v_720w.m3u8''"

definition track_net :: "response \<Rightarrow> response \<Rightarrow> network" where
  "track_net video_reply audio_reply lg =
     (case last lg of
        Get u \<Rightarrow>
          if u = ''p'' then ok []
          else if u = ''a/v.m3u8'' then ok track_playlist
          else if u = ''a/x_audio.m3u8'' then ok ''s.cmfa''
          else if u = ''a/v_720w.m3u8'' then ok ''s.cmfv''
          else if u = ''a/s.cmfv'' then video_reply
          else if u = ''a/s.cmfa'' then audio_reply
          else not_found
      | Head u \<Rightarrow>
          if u = ''a/s.cmfa'' \<or> u = ''a/s.cmfv'' then ok [] else not_found)"

definition bytes :: "string \<Rightarrow> response" where
  "bytes b = Response 200 [] (Length (int (length b))) [b] True"

definition failing_tool :: "string list \<Rightarrow> filesystem \<Rightarrow> process" where
  "failing_tool cmd fs = (if cmd = version_cmd then ProcExit 0 fs else ProcExit 1 fs)"

definition scenario :: "network \<Rightarrow> env" where
  "scenario remote =
     \<lparr>net = remote, can_open = (\<lambda>path. True), run = failing_tool,
      makedirs_ok = (\<lambda>dir. True), now = ''t'',
      parse = (\<lambda>content. page_doc), render = (\<lambda>doc. [])\<rparr>"

definition empty_world :: world where
  "empty_world = \<lparr>sent = [], files = Map.empty\<rparr>"

definition c5_net :: network where
  "c5_net lg = Response 200 [] NoLength [[], []] True"

text \<open>A download whose stream breaks before the first chunk arrives.\<close>

definition c5_broken_net :: network where
  "c5_broken_net lg = Response 200 [] NoLength [] False"

definition two_files :: world where
  "two_files = \<lparr>sent = [], files = [''v'' \<mapsto> ''VV'', ''a'' \<mapsto> ''AA'']\<rparr>"

definition track_log :: "request list" where
  "track_log = [Get ''p'', Head ''a/v.mp4'', Get ''a/v.m3u8'', Get ''a/x_audio.m3u8'',
                Head ''a/s.cmfa'', Get ''a/v_720w.m3u8'', Head ''a/s.cmfv'']"

definition no_metadata :: pin_metadata where
  "no_metadata = \<lparr>title = None, description = None, keyword_list = []\<rparr>"

text \<open>
  A page with two \<open>twitter:title\<close> elements, the first without content, and a title
  element.
\<close>

definition c9_doc :: soup where
  "c9_doc =
     [\<lparr>tag = ''meta'', attrs = [(''name'', ''twitter:title'')], inner_text = []\<rparr>,
      \<lparr>tag = ''meta'', attrs = [(''name'', ''twitter:title''), (''content'', ''X'')],
       inner_text = []\<rparr>,
      \<lparr>tag = ''title'', attrs = [], inner_text = ''T''\<rparr>]"

definition c9_page :: soup where
  "c9_page =
     [\<lparr>tag = ''meta'', attrs = [(''name'', ''twitter:title''), (''content'', ''X'')],
       inner_text = []\<rparr>,
      \<lparr>tag = ''title'', attrs = [], inner_text = ''T''\<rparr>]"

section \<open>Properties of the string operations\<close>

lemma startswith_append_short:
  "startswith (a @ r) old \<Longrightarrow> length a < length old \<Longrightarrow> startswith r (drop (length a) old)"
  unfolding startswith_def
  by (metis append_eq_conv_conj append_take_drop_id drop_append)

lemma startswith_append_long:
  "length old \<le> length a \<Longrightarrow> startswith (a @ r) old = startswith a old"
  unfolding startswith_def by simp

lemma replace_append:
  assumes "old \<noteq> []"
    and "\<And>k. 0 < k \<Longrightarrow> k < length old \<Longrightarrow> \<not> startswith r (drop k old)"
  shows "replace (a @ r) old new = replace a old new @ replace r old new"
  using assms
proof (induction a old new rule: replace.induct)
  case (1 old new)
  then show ?case by simp
next
  case (2 c cs old new)
  have long: "length old \<le> length (c # cs)" if "startswith ((c # cs) @ r) old"
  proof (rule ccontr)
    assume "\<not> length old \<le> length (c # cs)"
    then have lt: "length (c # cs) < length old" by simp
    from startswith_append_short[OF that lt] "2.prems"(2)[of "length (c # cs)"] lt
    show False by simp
  qed
  show ?case
  proof (cases "startswith ((c # cs) @ r) old")
    case True
    from long[OF True] have le: "length old \<le> length (c # cs)" .
    with True have sw: "startswith (c # cs) old" by (simp only: startswith_append_long)
    have "replace (drop (length old) (c # cs) @ r) old new =
          replace (drop (length old) (c # cs)) old new @ replace r old new"
      using "2.IH"(2)[OF "2.prems"(1) sw "2.prems"(1)] "2.prems"(2) by blast
    moreover have "drop (length old) ((c # cs) @ r) = drop (length old) (c # cs) @ r"
    proof -
      from le have "length old - length (c # cs) = 0" by simp
      then show ?thesis by (simp only: drop_append drop_0)
    qed
    ultimately show ?thesis using True sw "2.prems"(1) by simp
  next
    case False
    then have nsw: "\<not> startswith (c # cs) old"
      unfolding startswith_def
      by (metis append_Cons append_eq_conv_conj append_assoc append_take_drop_id)
    have "replace (cs @ r) old new = replace cs old new @ replace r old new"
      using "2.IH"(3)[OF "2.prems"(1) nsw "2.prems"(1)] "2.prems"(2) by blast
    then show ?thesis using False nsw "2.prems"(1) by simp
  qed
qed


lemma replace_hls_cons:
  "c \<noteq> CHR ''l'' \<Longrightarrow> c \<noteq> CHR ''s'' \<Longrightarrow>
   replace (a @ c # r) ''hls'' new = replace a ''hls'' new @ replace (c # r) ''hls'' new"
proof (rule replace_append)
  fix k :: nat
  assume c: "c \<noteq> CHR ''l''" "c \<noteq> CHR ''s''" and "0 < k" "k < length ''hls''"
  then have "k = 1 \<or> k = 2" by auto
  with c show "\<not> startswith (c # r) (drop k ''hls'')"
    by (auto simp: startswith_def)
qed simp

lemma replace_m3u8_cons:
  "c \<noteq> CHR ''3'' \<Longrightarrow> c \<noteq> CHR ''u'' \<Longrightarrow> c \<noteq> CHR ''8'' \<Longrightarrow>
   replace (a @ c # r) ''m3u8'' new = replace a ''m3u8'' new @ replace (c # r) ''m3u8'' new"
proof (rule replace_append)
  fix k :: nat
  assume c: "c \<noteq> CHR ''3''" "c \<noteq> CHR ''u''" "c \<noteq> CHR ''8''" and "0 < k" "k < length ''m3u8''"
  then have "k = 1 \<or> k = 2 \<or> k = 3" by auto
  with c show "\<not> startswith (c # r) (drop k ''m3u8'')"
    by (auto simp: startswith_def)
qed simp

text \<open>
  C10. The rewrite of method 1 acts on every occurrence of \<open>hls\<close> and of \<open>m3u8\<close>,
  wherever it stands in the URL: around any occurrence the URL is rewritten piecewise,
  the occurrence itself becoming \<open>720p\<close> or \<open>mp4\<close>.
\<close>

theorem simple_convert_everywhere:
  "simple_convert (a @ ''hls'' @ b) = simple_convert a @ ''720p'' @ simple_convert b \<and>
   simple_convert (a @ ''m3u8'' @ b) = simple_convert a @ ''mp4'' @ simple_convert b"
proof
  have h: "replace (a @ ''hls'' @ b) ''hls'' ''720p''
         = replace a ''hls'' ''720p'' @ ''720p'' @ replace b ''hls'' ''720p''"
    using replace_hls_cons[of "CHR ''h''" a "''ls'' @ b" "''720p''"]
    by (simp add: startswith_def)
  have "replace (replace a ''hls'' ''720p'' @ ''720p'' @ replace b ''hls'' ''720p'') ''m3u8'' ''mp4''
      = replace (replace a ''hls'' ''720p'') ''m3u8'' ''mp4'' @ ''720p''
          @ replace (replace b ''hls'' ''720p'') ''m3u8'' ''mp4''"
    using replace_m3u8_cons[of "CHR ''7''" "replace a ''hls'' ''720p''"
            "''20p'' @ replace b ''hls'' ''720p''" "''mp4''"]
    by (simp add: startswith_def)
  with h show "simple_convert (a @ ''hls'' @ b) = simple_convert a @ ''720p'' @ simple_convert b"
    by (simp only: simple_convert_def)
  have m: "replace (a @ ''m3u8'' @ b) ''hls'' ''720p''
         = replace a ''hls'' ''720p'' @ ''m3u8'' @ replace b ''hls'' ''720p''"
    using replace_hls_cons[of "CHR ''m''" a "''3u8'' @ b" "''720p''"]
    by (simp add: startswith_def)
  have "replace (replace a ''hls'' ''720p'' @ ''m3u8'' @ replace b ''hls'' ''720p'') ''m3u8'' ''mp4''
      = replace (replace a ''hls'' ''720p'') ''m3u8'' ''mp4'' @ ''mp4''
          @ replace (replace b ''hls'' ''720p'') ''m3u8'' ''mp4''"
    using replace_m3u8_cons[of "CHR ''m''" "replace a ''hls'' ''720p''"
            "''3u8'' @ replace b ''hls'' ''720p''" "''mp4''"]
    by (simp add: startswith_def)
  with m show "simple_convert (a @ ''m3u8'' @ b) = simple_convert a @ ''mp4'' @ simple_convert b"
    by (simp only: simple_convert_def)
qed

section \<open>Properties of get_video_and_audio_urls\<close>

lemmas string_ops = startswith_def endswith_def strip_def is_space_def rsplit_head_def
  marker_def stream_url_def simple_convert_def quality_order_def dquote_def

lemmas resolver_defs = get_video_and_audio_urls_def extract_audio_def try_quality_def
  finish_def failed_def request_def

lemma scan_segments_log:
  "set lg \<subseteq> set (snd (scan_segments remote base suffix lines lg))"
proof (induction lines arbitrary: lg)
  case Nil
  then show ?case by simp
next
  case (Cons line rest)
  have step: "set lg \<subseteq> set (lg @ [r])" for r :: request by auto
  show ?case
  proof (cases "endswith line suffix")
    case False
    then show ?thesis using Cons.IH[of lg] by simp
  next
    case True
    show ?thesis
    proof (cases "remote (lg @ [Head (base @ strip line)])")
      case Raised
      then show ?thesis using True by (auto simp: request_def)
    next
      case (Response st t cl ch fin)
      then show ?thesis
        using True Cons.IH[of "lg @ [Head (base @ strip line)]"]
        by (auto simp: request_def)
    qed
  qed
qed

lemma try_quality_log:
  "set lg \<subseteq> set (snd (try_quality remote base u q lg)) \<and>
   Get (stream_url base u q) \<in> set (snd (try_quality remote base u q lg))"
proof (cases "remote (lg @ [Get (stream_url base u q)])")
  case Raised
  then show ?thesis by (auto simp: try_quality_def request_def)
next
  case (Response st t cl ch fin)
  have "set (lg @ [Get (stream_url base u q)])
          \<subseteq> set (snd (scan_segments remote base ''.cmfv'' (split t CHR 0x0A)
                           (lg @ [Get (stream_url base u q)])))"
    by (rule scan_segments_log)
  with Response show ?thesis by (auto simp: try_quality_def request_def)
qed

lemma scan_qualities_log:
  "set lg \<subseteq> set (snd (scan_qualities remote base u body qs lg))"
proof (induction qs arbitrary: lg)
  case Nil
  then show ?case by simp
next
  case (Cons q rest)
  show ?case
  proof (cases "contains body (marker q)")
    case False
    then show ?thesis using Cons.IH[of lg] by simp
  next
    case True
    obtain r lg1 where t: "try_quality remote base u q lg = (r, lg1)"
      by (cases "try_quality remote base u q lg")
    with try_quality_log[of lg remote base u q] have sub: "set lg \<subseteq> set lg1" by simp
    show ?thesis
    proof (cases r)
      case Raise
      with t True sub show ?thesis by simp
    next
      case (Return v)
      with t True sub Cons.IH[of lg1] show ?thesis by auto
    qed
  qed
qed

lemma scan_qualities_skip:
  "\<forall>q\<in>set pre. \<not> contains body (marker q) \<Longrightarrow>
   scan_qualities remote base u body (pre @ rest) lg = scan_qualities remote base u body rest lg"
  by (induction pre) auto

lemma finish_invariant:
  "finish remote body a v lg = ((v', a', m), lg') \<Longrightarrow>
     (m = ''failed'' \<longrightarrow> v' = None) \<and> (v' = None \<longrightarrow> a' = None)"
  by (auto simp: finish_def failed_def split: if_splits prod.splits outcome.splits)

lemma strip_http: "startswith line ''http'' \<Longrightarrow> strip line \<noteq> []"
proof -
  assume "startswith line ''http''"
  then obtain r where l: "line = CHR ''h'' # r"
    by (cases line) (auto simp: startswith_def)
  have ns: "\<not> is_space (CHR ''h'')" by (simp add: is_space_def)
  then have "dropWhile is_space line = line" using l by simp
  moreover have "dropWhile is_space (rev line) \<noteq> []"
    using l ns by (auto simp: dropWhile_eq_Nil_conv)
  ultimately show ?thesis by (simp add: strip_def)
qed

lemma scan_mp4_found:
  "scan_mp4 remote lines lg = (Return (Some v), lg') \<Longrightarrow>
     (\<exists>line\<in>set lines. contains line ''.mp4'' \<and> startswith line ''http'' \<and> v = strip line) \<and>
     (\<exists>pre t cl ch fin. lg' = pre @ [Head v] \<and> remote lg' = Response 200 t cl ch fin)"
proof (induction lines arbitrary: lg)
  case Nil
  then show ?case by simp
next
  case (Cons line rest)
  show ?case
  proof (cases "contains line ''.mp4'' \<and> startswith line ''http''")
    case False
    with Cons.prems have "scan_mp4 remote rest lg = (Return (Some v), lg')" by auto
    from Cons.IH[OF this] show ?thesis by auto
  next
    case True
    show ?thesis
    proof (cases "remote (lg @ [Head (strip line)])")
      case Raised
      with True Cons.prems show ?thesis by (simp add: request_def)
    next
      case (Response st t cl ch fin)
      show ?thesis
      proof (cases "st = 200")
        case True200: True
        with True Response Cons.prems
        have "v = strip line" "lg' = lg @ [Head (strip line)]" by (auto simp: request_def)
        with True Response True200 show ?thesis by auto
      next
        case False
        with True Response Cons.prems
        have "scan_mp4 remote rest (lg @ [Head (strip line)]) = (Return (Some v), lg')"
          by (simp add: request_def)
        from Cons.IH[OF this] show ?thesis by auto
      qed
    qed
  qed
qed

text \<open>
  An exception raised while a quality is attempted (by the request for its sub-manifest or
  by an existence check) ends the loop at once; line 94 then returns the failed triple.
\<close>

lemma tier2_raise_stops:
  assumes "\<forall>x\<in>set pre. \<not> contains body (marker x)"
    and "contains body (marker q)"
    and "try_quality remote base u q lg = (Raise, lg1)"
  shows "scan_qualities remote base u body (pre @ q # rest) lg = (Raise, lg1)"
proof -
  have "scan_qualities remote base u body (pre @ q # rest) lg
          = scan_qualities remote base u body (q # rest) lg"
    using assms(1) by (rule scan_qualities_skip)
  with assms(2,3) show ?thesis by simp
qed

text \<open>
  C1, as amended. The quality loop of lines 58 to 77 leaves by \<open>break\<close> only once a
  video URL is found. Take the first quality whose marker appears in the playlist, and let
  its attempt raise no exception and yield no video URL (its sub-manifest answers with a
  status other than 200, or no line ending in \<open>.cmfv\<close> answers the existence check with
  200). Then the loop does not stop at that quality: it goes on to the next quality whose
  marker appears and requests its sub-manifest. The result of the loop is what that second
  attempt gives: an exception raised there ends the loop, a video URL found there is
  returned, and without either the loop continues with the qualities after it.
\<close>

theorem tier2_falls_through:
  assumes pre: "\<forall>x\<in>set pre. \<not> contains body (marker x)"
    and q: "contains body (marker q)"
    and first: "try_quality remote base u q lg = (Return v, lg1)"
    and none: "\<not> truthy v"
    and mid: "\<forall>x\<in>set mid. \<not> contains body (marker x)"
    and q': "contains body (marker q')"
  shows "scan_qualities remote base u body (pre @ q # mid @ q' # post) lg =
           (case try_quality remote base u q' lg1 of
              (Raise, lg2) \<Rightarrow> (Raise, lg2)
            | (Return v', lg2) \<Rightarrow>
                if truthy v' then (Return v', lg2)
                else scan_qualities remote base u body post lg2) \<and>
         Get (stream_url base u q')
           \<in> set (snd (scan_qualities remote base u body (pre @ q # mid @ q' # post) lg))"
proof -
  have "scan_qualities remote base u body (pre @ q # mid @ q' # post) lg
          = scan_qualities remote base u body (q # mid @ q' # post) lg"
    using pre by (rule scan_qualities_skip)
  also have "\<dots> = scan_qualities remote base u body (mid @ q' # post) lg1"
    using q first none by simp
  also have "\<dots> = scan_qualities remote base u body (q' # post) lg1"
    using mid by (rule scan_qualities_skip)
  finally have eq: "scan_qualities remote base u body (pre @ q # mid @ q' # post) lg
          = scan_qualities remote base u body (q' # post) lg1" .
  have unfold: "scan_qualities remote base u body (q' # post) lg1 =
           (case try_quality remote base u q' lg1 of
              (Raise, lg2) \<Rightarrow> (Raise, lg2)
            | (Return v', lg2) \<Rightarrow>
                if truthy v' then (Return v', lg2)
                else scan_qualities remote base u body post lg2)"
    using q' by simp
  obtain r lg2 where t: "try_quality remote base u q' lg1 = (r, lg2)"
    by (cases "try_quality remote base u q' lg1")
  with try_quality_log[of lg1 remote base u q']
  have mem: "Get (stream_url base u q') \<in> set lg2" by simp
  have "Get (stream_url base u q') \<in> set (snd (scan_qualities remote base u body (q' # post) lg1))"
  proof (cases r)
    case Raise
    with t q' mem show ?thesis by simp
  next
    case (Return v')
    with t q' mem scan_qualities_log[of lg2 remote base u body post] show ?thesis by auto
  qed
  with eq unfold show ?thesis by simp
qed

theorem tier2_falls_through_witness:
  "contains c1_playlist (marker ''720w'') \<and>
   contains c1_playlist (marker ''540w'') \<and>
   scan_qualities c1_net ''a/'' ''a/v.m3u8'' c1_playlist quality_order []
     = (Return (Some ''a/s.cmfv''), [Get ''a/v_720w.m3u8'', Get ''a/v_540w.m3u8'', Head ''a/s.cmfv'']) \<and>
   Get ''a/v_540w.m3u8''
     \<in> set (snd (scan_qualities c1_net ''a/'' ''a/v.m3u8'' c1_playlist quality_order []))"
proof -
  have q: "contains c1_playlist (marker ''720w'')"
    by (simp add: c1_playlist_def string_ops)
  have q': "contains c1_playlist (marker ''540w'')"
    by (simp add: c1_playlist_def string_ops)
  have first: "try_quality c1_net ''a/'' ''a/v.m3u8'' ''720w'' []
                 = (Return None, [Get ''a/v_720w.m3u8''])"
    by (simp add: c1_net_def ok_def not_found_def string_ops resolver_defs)
  have second: "try_quality c1_net ''a/'' ''a/v.m3u8'' ''540w'' [Get ''a/v_720w.m3u8'']
                 = (Return (Some ''a/s.cmfv''),
                    [Get ''a/v_720w.m3u8'', Get ''a/v_540w.m3u8'', Head ''a/s.cmfv''])"
    by (simp add: c1_net_def ok_def not_found_def string_ops resolver_defs)
  have su: "stream_url ''a/'' ''a/v.m3u8'' ''540w'' = ''a/v_540w.m3u8''"
    by (simp add: string_ops)
  from tier2_falls_through[of "[]" c1_playlist "''720w''" c1_net "''a/''" "''a/v.m3u8''" "[]"
         None "[Get ''a/v_720w.m3u8'']" "[]" "''540w''" "[''360w'', ''240w'']", OF _ q first _ _ q']
  show ?thesis using q q' second su by (simp add: quality_order_def)
qed

text \<open>
  The claim as written says that only the first quality whose marker appears is
  attempted. In the playlist below both \<open>_720w.m3u8\<close> and \<open>_540w.m3u8\<close> appear, the
  720w sub-manifest answers 404, and the resolver then requests the 540w sub-manifest and
  takes the video URL from it.
\<close>

theorem tier2_single_quality_counterexample:
  "contains c1_playlist (marker ''720w'') \<and>
   contains c1_playlist (marker ''540w'') \<and>
   try_quality c1_net ''a/'' ''a/v.m3u8'' ''720w'' [Head ''a/v.mp4'', Get ''a/v.m3u8'']
     = (Return None, [Head ''a/v.mp4'', Get ''a/v.m3u8'', Get ''a/v_720w.m3u8'']) \<and>
   get_video_and_audio_urls c1_net ''a/v.m3u8'' []
     = ((Some ''a/s.cmfv'', None, ''hls_video_only''),
        [Head ''a/v.mp4'', Get ''a/v.m3u8'', Get ''a/v_720w.m3u8'',
         Get ''a/v_540w.m3u8'', Head ''a/s.cmfv''])"
  by (simp add: c1_net_def c1_playlist_def ok_def not_found_def string_ops resolver_defs)

text \<open>
  C2. When the HEAD request for the rewritten URL answers with status 200, the function
  returns that URL with no audio and method \<open>simple\<close>, and the HEAD request is the only
  request it has added to the log.
\<close>

theorem tier1_short_circuit:
  assumes "remote (lg @ [Head (simple_convert m3u8_url)]) = Response 200 t cl ch fin"
  shows "get_video_and_audio_urls remote m3u8_url lg
           = ((Some (simple_convert m3u8_url), None, ''simple''),
              lg @ [Head (simple_convert m3u8_url)])"
  using assms by (simp add: get_video_and_audio_urls_def request_def)

theorem tier1_short_circuit_witness:
  "c2_net ([] @ [Head (simple_convert ''a/hls/v.m3u8'')]) = Response 200 [] NoLength [] True \<and>
   get_video_and_audio_urls c2_net ''a/hls/v.m3u8'' []
     = ((Some ''a/720p/v.mp4'', None, ''simple''), [Head ''a/720p/v.mp4''])"
proof -
  have h: "c2_net ([] @ [Head (simple_convert ''a/hls/v.m3u8'')]) = Response 200 [] NoLength [] True"
    by (simp add: c2_net_def ok_def)
  have c: "simple_convert ''a/hls/v.m3u8'' = ''a/720p/v.mp4''"
    by (simp add: string_ops)
  from tier1_short_circuit[of c2_net "[]" "''a/hls/v.m3u8''" "[]" NoLength "[]" True, OF h] h c
  show ?thesis by simp
qed

text \<open>
  C3, as amended. When method 2 found no video URL and the scan of the playlist lines
  finds a line that contains \<open>.mp4\<close>, starts with \<open>http\<close> and answers the HEAD request
  with status 200, the video URL returned is that line with surrounding whitespace
  stripped, and the audio URL is the one the audio extraction found before: the method is
  \<open>hls_separate\<close> when there is one and \<open>hls_video_only\<close> otherwise.
\<close>

theorem tier3_keeps_audio:
  assumes tier1: "remote (lg @ [Head (simple_convert m3u8_url)]) = Response st1 t1 cl1 ch1 fin1"
    and st1: "st1 \<noteq> 200"
    and manifest: "remote (lg @ [Head (simple_convert m3u8_url), Get m3u8_url])
                     = Response 200 body cl2 ch2 fin2"
    and audio: "extract_audio remote (rsplit_head m3u8_url CHR ''/'' @ ''/'') body
                  (lg @ [Head (simple_convert m3u8_url), Get m3u8_url]) = (Return audio_url, lg3)"
    and tier2: "scan_qualities remote (rsplit_head m3u8_url CHR ''/'' @ ''/'') m3u8_url body
                  quality_order lg3 = (Return v2, lg4)"
    and none: "\<not> truthy v2"
    and tier3: "scan_mp4 remote (split body CHR 0x0A) lg4 = (Return (Some v), lg5)"
  shows "get_video_and_audio_urls remote m3u8_url lg
           = ((Some v, audio_url,
               if truthy audio_url then ''hls_separate'' else ''hls_video_only''), lg5) \<and>
         (\<exists>line\<in>set (split body CHR 0x0A).
            contains line ''.mp4'' \<and> startswith line ''http'' \<and> v = strip line)"
proof -
  from scan_mp4_found[OF tier3]
  have line: "\<exists>line\<in>set (split body CHR 0x0A).
            contains line ''.mp4'' \<and> startswith line ''http'' \<and> v = strip line"
    by blast
  then have "v \<noteq> []" using strip_http by auto
  then have fin: "finish remote body audio_url v2 lg4
           = ((Some v, audio_url,
               if truthy audio_url then ''hls_separate'' else ''hls_video_only''), lg5)"
    using none tier3 by (simp add: finish_def)
  have "get_video_and_audio_urls remote m3u8_url lg = finish remote body audio_url v2 lg4"
    using tier1 st1 manifest audio tier2
    by (simp add: get_video_and_audio_urls_def request_def)
  with fin line show ?thesis by simp
qed

theorem tier3_keeps_audio_witness:
  "get_video_and_audio_urls c3_net ''a/v.m3u8'' []
     = ((Some ''http://c/v.mp4'', Some ''a/s.cmfa'',
         if truthy (Some ''a/s.cmfa'') then ''hls_separate'' else ''hls_video_only''),
        [Head ''a/v.mp4'', Get ''a/v.m3u8'', Get ''a/x_audio.m3u8'', Head ''a/s.cmfa'',
         Head ''http://c/v.mp4'']) \<and>
   (\<exists>line\<in>set (split c3_playlist CHR 0x0A).
      contains line ''.mp4'' \<and> startswith line ''http'' \<and> ''http://c/v.mp4'' = strip line)"
proof -
  have c: "simple_convert ''a/v.m3u8'' = ''a/v.mp4''"
    by (simp add: string_ops)
  have b: "rsplit_head ''a/v.m3u8'' CHR ''/'' @ ''/'' = ''a/''"
    by (simp add: string_ops)
  have tier1: "c3_net ([] @ [Head (simple_convert ''a/v.m3u8'')]) = Response 404 [] NoLength [] True"
    by (simp add: c c3_net_def not_found_def)
  have st1: "(404 :: int) \<noteq> 200" by simp
  have manifest: "c3_net ([] @ [Head (simple_convert ''a/v.m3u8''), Get ''a/v.m3u8''])
                    = Response 200 c3_playlist NoLength [] True"
    by (simp add: c c3_net_def ok_def)
  have audio: "extract_audio c3_net (rsplit_head ''a/v.m3u8'' CHR ''/'' @ ''/'') c3_playlist
                 ([] @ [Head (simple_convert ''a/v.m3u8''), Get ''a/v.m3u8''])
               = (Return (Some ''a/s.cmfa''),
                  [Head ''a/v.mp4'', Get ''a/v.m3u8'', Get ''a/x_audio.m3u8'', Head ''a/s.cmfa''])"
    unfolding b c
    by (simp add: c3_net_def c3_playlist_def ok_def not_found_def string_ops resolver_defs)
  have tier2: "scan_qualities c3_net (rsplit_head ''a/v.m3u8'' CHR ''/'' @ ''/'') ''a/v.m3u8''
                 c3_playlist quality_order
                 [Head ''a/v.mp4'', Get ''a/v.m3u8'', Get ''a/x_audio.m3u8'', Head ''a/s.cmfa'']
               = (Return None,
                  [Head ''a/v.mp4'', Get ''a/v.m3u8'', Get ''a/x_audio.m3u8'', Head ''a/s.cmfa''])"
    unfolding b
    by (simp add: c3_playlist_def string_ops)
  have none: "\<not> truthy None" by simp
  have tier3: "scan_mp4 c3_net (split c3_playlist CHR 0x0A)
                 [Head ''a/v.mp4'', Get ''a/v.m3u8'', Get ''a/x_audio.m3u8'', Head ''a/s.cmfa'']
               = (Return (Some ''http://c/v.mp4''),
                  [Head ''a/v.mp4'', Get ''a/v.m3u8'', Get ''a/x_audio.m3u8'', Head ''a/s.cmfa'',
                   Head ''http://c/v.mp4''])"
    by (simp add: c3_net_def c3_playlist_def ok_def not_found_def string_ops request_def)
  from tier3_keeps_audio[OF tier1 st1 manifest audio tier2 none tier3]
  show ?thesis .
qed

text \<open>
  The claim as written says that the audio URL is absent after method 3. In the playlist
  below the audio extraction finds \<open>a/s.cmfa\<close>, no quality marker appears, and the line
  \<open>http://c/v.mp4\<close> followed by a space answers the HEAD request: the result carries the
  stripped line as video URL together with the audio URL.
\<close>

theorem tier3_audio_absent_counterexample:
  "scan_qualities c3_net ''a/'' ''a/v.m3u8'' c3_playlist quality_order
     [Head ''a/v.mp4'', Get ''a/v.m3u8'', Get ''a/x_audio.m3u8'', Head ''a/s.cmfa'']
     = (Return None,
        [Head ''a/v.mp4'', Get ''a/v.m3u8'', Get ''a/x_audio.m3u8'', Head ''a/s.cmfa'']) \<and>
   split c3_playlist CHR 0x0A
     = [''URI='' @ [dquote] @ ''x_audio.m3u8'' @ [dquote], ''http://c/v.mp4 ''] \<and>
   get_video_and_audio_urls c3_net ''a/v.m3u8'' []
     = ((Some ''http://c/v.mp4'', Some ''a/s.cmfa'', ''hls_separate''),
        [Head ''a/v.mp4'', Get ''a/v.m3u8'', Get ''a/x_audio.m3u8'', Head ''a/s.cmfa'',
         Head ''http://c/v.mp4''])"
  by (simp add: c3_net_def c3_playlist_def ok_def not_found_def string_ops resolver_defs)

text \<open>
  C4. Whatever the remote side answers, the triple returned has no video URL when its
  method is \<open>failed\<close>, and has no audio URL when it has no video URL.
\<close>

theorem streams_invariant:
  assumes "get_video_and_audio_urls remote m3u8_url lg = ((v, a, m), lg')"
  shows "(m = ''failed'' \<longrightarrow> v = None) \<and> (v = None \<longrightarrow> a = None)"
  using assms
  by (auto simp: get_video_and_audio_urls_def failed_def Let_def
           split: if_splits prod.splits outcome.splits response.splits
           dest: finish_invariant)

theorem streams_invariant_witness:
  "get_video_and_audio_urls c4_net ''a/v.m3u8'' []
     = ((None, None, ''failed''), [Head ''a/v.mp4'', Get ''a/v.m3u8'']) \<and>
   fst (fst (get_video_and_audio_urls c4_net ''a/v.m3u8'' [])) = None \<and>
   fst (snd (fst (get_video_and_audio_urls c4_net ''a/v.m3u8'' []))) = None"
proof -
  have h: "get_video_and_audio_urls c4_net ''a/v.m3u8'' []
     = ((None, None, ''failed''), [Head ''a/v.mp4'', Get ''a/v.m3u8''])"
    by (simp add: c4_net_def not_found_def string_ops resolver_defs)
  from streams_invariant[OF h] have "(None :: string option) = None" by simp
  with h show ?thesis by simp
qed

section \<open>Properties of download_file and merge_video_audio\<close>

text \<open>
  C5, as amended. When the response has status 200, neither \<open>int\<close> on the header nor
  the opening of the file raises, and the stream runs to its end with zero bytes written,
  \<open>download_file\<close> removes the destination file it created and returns \<open>False\<close>.
\<close>

theorem download_file_empty:
  assumes "net e (sent w @ [Get url]) = Response 200 t cl chunks True"
    and "cl \<noteq> BadLength"
    and "can_open e filename"
    and "snd (write_chunks chunks ([], 0)) = 0"
  shows "fst (download_file e url filename w) = False \<and>
         files (snd (download_file e url filename w)) filename = None"
  using assms
  by (auto simp: download_file_def request_def os_remove_def split: prod.splits)

theorem download_file_empty_witness:
  "net (scenario c5_net) (sent empty_world @ [Get ''u'']) = Response 200 [] NoLength [[], []] True \<and>
   snd (write_chunks [[], []] ([], 0)) = 0 \<and>
   fst (download_file (scenario c5_net) ''u'' ''f'' empty_world) = False \<and>
   files (snd (download_file (scenario c5_net) ''u'' ''f'' empty_world)) ''f'' = None"
proof -
  have h1: "net (scenario c5_net) (sent empty_world @ [Get ''u''])
              = Response 200 [] NoLength [[], []] True"
    by (simp add: scenario_def c5_net_def)
  have h2: "NoLength \<noteq> BadLength" by simp
  have h3: "can_open (scenario c5_net) ''f''" by (simp add: scenario_def)
  have h4: "snd (write_chunks [[], []] ([], 0)) = 0" by simp
  from download_file_empty[OF h1 h2 h3 h4] h1 h4 show ?thesis by simp
qed


text \<open>
  Without the condition on the stream the statement fails. Below the response has status
  200 and the stream raises before its first chunk: zero bytes are written, the exception
  is caught at line 164 and \<open>False\<close> is returned, but line 159 is never reached and the
  empty file that line 151 created stays on disk.
\<close>

theorem download_file_empty_counterexample:
  "net (scenario c5_broken_net) (sent empty_world @ [Get ''u''])
     = Response 200 [] NoLength [] False \<and>
   snd (write_chunks [] ([], 0)) = 0 \<and>
   download_file (scenario c5_broken_net) ''u'' ''f'' empty_world
     = (False, \<lparr>sent = [Get ''u''], files = [''f'' \<mapsto> []]\<rparr>) \<and>
   files (snd (download_file (scenario c5_broken_net) ''u'' ''f'' empty_world)) ''f'' = Some []"
  by (simp add: download_file_def request_def scenario_def c5_broken_net_def empty_world_def)

lemma failing_tool_preserves: "preserves (scenario remote) path"
  by (auto simp: preserves_def scenario_def failing_tool_def split: if_splits)

text \<open>
  C6. When the version probe exits with code 0 and the merge run raises or exits with a
  nonzero code, \<open>merge_video_audio\<close> returns \<open>False\<close> and removes nothing: with a tool
  that leaves the two input files as it finds them, both are on disk as before.
\<close>

theorem merge_failure_keeps_inputs:
  assumes "preserves e video_file" and "preserves e audio_file"
    and avail: "run e version_cmd (files w) = ProcExit 0 fs1"
    and fails: "case run e (mux_cmd video_file audio_file output_file) fs1 of
                  ProcRaise \<Rightarrow> True | ProcExit rc fs2 \<Rightarrow> rc \<noteq> 0"
  shows "fst (merge_video_audio e video_file audio_file output_file w) = False \<and>
         files (snd (merge_video_audio e video_file audio_file output_file w)) video_file
           = files w video_file \<and>
         files (snd (merge_video_audio e video_file audio_file output_file w)) audio_file
           = files w audio_file"
proof -
  from assms(1,2) avail have one: "fs1 video_file = files w video_file"
      "fs1 audio_file = files w audio_file"
    by (auto simp: preserves_def)
  show ?thesis
  proof (cases "run e (mux_cmd video_file audio_file output_file) fs1")
    case ProcRaise
    with avail one show ?thesis by (simp add: merge_video_audio_def)
  next
    case (ProcExit rc fs2)
    with assms(1,2) have "fs2 video_file = fs1 video_file" "fs2 audio_file = fs1 audio_file"
      by (auto simp: preserves_def)
    with ProcExit fails avail one show ?thesis by (simp add: merge_video_audio_def)
  qed
qed

theorem merge_failure_keeps_inputs_witness:
  "run (scenario c4_net) version_cmd (files two_files) = ProcExit 0 (files two_files) \<and>
   run (scenario c4_net) (mux_cmd ''v'' ''a'' ''o'') (files two_files)
     = ProcExit 1 (files two_files) \<and>
   fst (merge_video_audio (scenario c4_net) ''v'' ''a'' ''o'' two_files) = False \<and>
   files (snd (merge_video_audio (scenario c4_net) ''v'' ''a'' ''o'' two_files)) ''v''
     = Some ''VV'' \<and>
   files (snd (merge_video_audio (scenario c4_net) ''v'' ''a'' ''o'' two_files)) ''a''
     = Some ''AA''"
proof -
  have avail: "run (scenario c4_net) version_cmd (files two_files) = ProcExit 0 (files two_files)"
    by (simp add: scenario_def failing_tool_def)
  have mux: "run (scenario c4_net) (mux_cmd ''v'' ''a'' ''o'') (files two_files)
               = ProcExit 1 (files two_files)"
    by (simp add: scenario_def failing_tool_def mux_cmd_def version_cmd_def)
  then have fails: "case run (scenario c4_net) (mux_cmd ''v'' ''a'' ''o'') (files two_files) of
                  ProcRaise \<Rightarrow> True | ProcExit rc fs2 \<Rightarrow> rc \<noteq> 0"
    by simp
  have v: "files two_files ''v'' = Some ''VV''" and a: "files two_files ''a'' = Some ''AA''"
    by (simp_all add: two_files_def)
  from merge_failure_keeps_inputs[OF failing_tool_preserves failing_tool_preserves avail fails]
  show ?thesis using avail mux v a by simp
qed

lemma download_file_sent:
  "sent (snd (download_file e url filename w)) = sent w @ [Get url]"
  by (auto simp: download_file_def request_def os_remove_def Let_def
           split: prod.splits response.splits)

lemma download_file_success:
  "download_file e url filename w = (True, w') \<Longrightarrow> files w' filename \<noteq> None"
  by (auto simp: download_file_def request_def os_remove_def Let_def
           split: prod.splits response.splits if_splits)

lemma download_file_other:
  "path \<noteq> filename \<Longrightarrow> files (snd (download_file e url filename w)) path = files w path"
  by (auto simp: download_file_def request_def os_remove_def Let_def
           split: prod.splits response.splits)

lemma merge_failure_other:
  assumes "preserves e path" and "merge_video_audio e video_file audio_file output_file w = (False, w')"
    and "path \<noteq> video_file"
  shows "files w' path = files w path"
proof -
  have keep: "run e cmd fs = ProcExit rc fs' \<Longrightarrow> fs' path = fs path" for cmd fs rc fs'
    using assms(1) by (auto simp: preserves_def)
  show ?thesis
  proof (cases "run e version_cmd (files w)")
    case ProcRaise
    with assms(2) show ?thesis by (auto simp: merge_video_audio_def)
  next
    case one: (ProcExit rc fs1)
    note k1 = keep[OF one]
    show ?thesis
    proof (cases "rc = 0")
      case False
      with one assms(2) k1 show ?thesis by (auto simp: merge_video_audio_def)
    next
      case True
      show ?thesis
      proof (cases "run e (mux_cmd video_file audio_file output_file) fs1")
        case ProcRaise
        with one True assms(2) k1 show ?thesis by (auto simp: merge_video_audio_def)
      next
        case two: (ProcExit rc' fs2)
        note k2 = keep[OF two]
        from one True two assms(2) assms(3) k1 k2 show ?thesis
          by (auto simp: merge_video_audio_def os_remove_def
                   split: if_splits outcome.splits)
      qed
    qed
  qed
qed

lemma track_names_differ:
  "path_join d (n @ ''_video.mp4'') \<noteq> path_join d (n @ ''_audio.mp4'')"
  by (cases n) (auto simp: path_join_def startswith_def)

section \<open>Properties of download_pinterest_video\<close>

lemmas scenario_defs = scenario_def track_net_def track_playlist_def page_doc_def ok_def
  not_found_def bytes_def empty_world_def failing_tool_def no_metadata_def

lemma scenario_short:
  "resolve_short_url (scenario (track_net vr ar)) ''p'' empty_world = (Inr ''p'', empty_world)"
  by (simp add: resolve_short_url_def startswith_def)

lemma scenario_page:
  "fetch_page (scenario (track_net vr ar)) ''p'' empty_world
     = (Inr (no_metadata, ''a/v.m3u8''), \<lparr>sent = [Get ''p''], files = Map.empty\<rparr>)"
  by (simp add: fetch_page_def find_extract_url_def src_of_def find_tag_def attr_get_def
        attr_matches_def extract_pinterest_metadata_def extract_title_def
        extract_description_def extract_keywords_def content_of_def request_def
        scenario_defs words_def is_space_def)

lemma scenario_streams:
  "select_streams (scenario (track_net vr ar)) ''a/v.m3u8'' \<lparr>sent = [Get ''p''], files = Map.empty\<rparr>
     = (Inr (''a/s.cmfv'', Some ''a/s.cmfa'', ''hls_separate''),
        \<lparr>sent = track_log, files = Map.empty\<rparr>)"
  by (simp add: select_streams_def track_log_def scenario_defs string_ops resolver_defs)

lemma scenario_names:
  "path_join ''out'' (now (scenario remote) @ ''_video.mp4'') = ''out/t_video.mp4''"
  "path_join ''out'' (now (scenario remote) @ ''_audio.mp4'') = ''out/t_audio.mp4''"
  "path_join ''out'' (now (scenario remote) @ ''.mp4'') = ''out/t.mp4''"
  by (simp_all add: path_join_def scenario_def startswith_def endswith_def)

lemma scenario_dir: "makedirs_ok (scenario remote) ''out''"
  by (simp add: scenario_def)

text \<open>
  C7. On the two-track path, when both downloads succeed and \<open>merge_video_audio\<close>
  returns \<open>False\<close>, the function raises nothing: it returns the name of the video
  temporary file as \<open>filePath\<close>, and the audio temporary file is still on disk (the tool
  being one that leaves that file as it finds it).
\<close>

theorem mux_failure_degrades:
  assumes short: "resolve_short_url e page_url w = (Inr page_url', w1)"
    and page: "fetch_page e page_url' w1 = (Inr (pin, extract_url), w2)"
    and streams: "select_streams e extract_url w2 = (Inr (video_url, Some audio_url, method), w3)"
    and audio: "audio_url \<noteq> []"
    and dir: "makedirs_ok e output_dir"
    and video_ok: "download_file e video_url (path_join output_dir (now e @ ''_video.mp4'')) w3
                     = (True, w4)"
    and audio_ok: "download_file e audio_url (path_join output_dir (now e @ ''_audio.mp4'')) w4
                     = (True, w5)"
    and mux: "merge_video_audio e (path_join output_dir (now e @ ''_video.mp4''))
                (path_join output_dir (now e @ ''_audio.mp4''))
                (path_join output_dir (now e @ ''.mp4'')) w5 = (False, w6)"
    and tool: "preserves e (path_join output_dir (now e @ ''_audio.mp4''))"
  shows "download_pinterest_video e page_url output_dir w
           = (Inr \<lparr>filePath = path_join output_dir (now e @ ''_video.mp4''), metadata = pin\<rparr>, w6) \<and>
         files w6 (path_join output_dir (now e @ ''_audio.mp4'')) \<noteq> None"
proof -
  have "download_tracks e output_dir video_url (Some audio_url) pin w3
          = (Inr \<lparr>filePath = path_join output_dir (now e @ ''_video.mp4''), metadata = pin\<rparr>, w6)"
    using audio dir video_ok audio_ok mux by (simp add: download_tracks_def)
  then have res: "download_pinterest_video e page_url output_dir w
          = (Inr \<lparr>filePath = path_join output_dir (now e @ ''_video.mp4''), metadata = pin\<rparr>, w6)"
    using short page streams by (simp add: download_pinterest_video_def)
  have "files w5 (path_join output_dir (now e @ ''_audio.mp4'')) \<noteq> None"
    using audio_ok by (rule download_file_success)
  moreover have "files w6 (path_join output_dir (now e @ ''_audio.mp4''))
                   = files w5 (path_join output_dir (now e @ ''_audio.mp4''))"
    using tool mux track_names_differ[of output_dir "now e"]
    by (intro merge_failure_other) auto
  ultimately show ?thesis using res by simp
qed

theorem mux_failure_degrades_witness:
  "download_pinterest_video (scenario (track_net (bytes ''VV'') (bytes ''AA''))) ''p'' ''out''
     empty_world
     = (Inr \<lparr>filePath = ''out/t_video.mp4'', metadata = no_metadata\<rparr>,
        \<lparr>sent = track_log @ [Get ''a/s.cmfv'', Get ''a/s.cmfa''],
         files = [''out/t_video.mp4'' \<mapsto> ''VV'', ''out/t_audio.mp4'' \<mapsto> ''AA'']\<rparr>) \<and>
   files \<lparr>sent = track_log @ [Get ''a/s.cmfv'', Get ''a/s.cmfa''],
          files = [''out/t_video.mp4'' \<mapsto> ''VV'', ''out/t_audio.mp4'' \<mapsto> ''AA'']\<rparr>
     ''out/t_audio.mp4'' = Some ''AA''"
proof -
  let ?e = "scenario (track_net (bytes ''VV'') (bytes ''AA''))"
  let ?w3 = "\<lparr>sent = track_log, files = Map.empty\<rparr>"
  let ?w4 = "\<lparr>sent = track_log @ [Get ''a/s.cmfv''], files = [''out/t_video.mp4'' \<mapsto> ''VV'']\<rparr>"
  let ?w5 = "\<lparr>sent = track_log @ [Get ''a/s.cmfv'', Get ''a/s.cmfa''],
             files = [''out/t_video.mp4'' \<mapsto> ''VV'', ''out/t_audio.mp4'' \<mapsto> ''AA'']\<rparr>"
  have audio: "''a/s.cmfa'' \<noteq> []" by simp
  have video_ok: "download_file ?e ''a/s.cmfv'' (path_join ''out'' (now ?e @ ''_video.mp4'')) ?w3
                    = (True, ?w4)"
    unfolding scenario_names
    by (simp add: download_file_def request_def scenario_defs track_log_def)
  have audio_ok: "download_file ?e ''a/s.cmfa'' (path_join ''out'' (now ?e @ ''_audio.mp4'')) ?w4
                    = (True, ?w5)"
    unfolding scenario_names
    by (simp add: download_file_def request_def scenario_defs track_log_def)
  have mux: "merge_video_audio ?e (path_join ''out'' (now ?e @ ''_video.mp4''))
               (path_join ''out'' (now ?e @ ''_audio.mp4''))
               (path_join ''out'' (now ?e @ ''.mp4'')) ?w5 = (False, ?w5)"
    unfolding scenario_names
    by (simp add: merge_video_audio_def scenario_defs mux_cmd_def version_cmd_def)
  from mux_failure_degrades[OF scenario_short scenario_page scenario_streams audio
         scenario_dir video_ok audio_ok mux failing_tool_preserves]
  show ?thesis unfolding scenario_names by simp
qed


text \<open>
  C8. On the two-track path, a failed video download ends the function with the
  exception of line 292, in the state the download left: nothing is removed and the only
  request made is the one for the video. A failed audio download after a successful video
  download ends it with the exception of line 297, the video temporary file removed.
\<close>

theorem two_track_failures:
  assumes short: "resolve_short_url e page_url w = (Inr page_url', w1)"
    and page: "fetch_page e page_url' w1 = (Inr (pin, extract_url), w2)"
    and streams: "select_streams e extract_url w2 = (Inr (video_url, Some audio_url, method), w3)"
    and audio: "audio_url \<noteq> []"
    and dir: "makedirs_ok e output_dir"
  shows "(download_file e video_url (path_join output_dir (now e @ ''_video.mp4'')) w3 = (False, w4)
            \<longrightarrow> download_pinterest_video e page_url output_dir w
                  = (Inl (Exception ''Failed to download video track''), w4) \<and>
                sent w4 = sent w3 @ [Get video_url]) \<and>
         (download_file e video_url (path_join output_dir (now e @ ''_video.mp4'')) w3 = (True, w4) \<and>
          download_file e audio_url (path_join output_dir (now e @ ''_audio.mp4'')) w4 = (False, w5)
            \<longrightarrow> download_pinterest_video e page_url output_dir w
                  = (Inl (Exception ''Failed to download audio track''),
                     w5\<lparr>files := (files w5)(path_join output_dir (now e @ ''_video.mp4'') := None)\<rparr>))"
proof (intro conjI impI)
  assume v: "download_file e video_url (path_join output_dir (now e @ ''_video.mp4'')) w3 = (False, w4)"
  then have "download_tracks e output_dir video_url (Some audio_url) pin w3
          = (Inl (Exception ''Failed to download video track''), w4)"
    using audio dir by (simp add: download_tracks_def)
  then show "download_pinterest_video e page_url output_dir w
                  = (Inl (Exception ''Failed to download video track''), w4)"
    using short page streams by (simp add: download_pinterest_video_def)
  from download_file_sent[of e video_url "path_join output_dir (now e @ ''_video.mp4'')" w3] v
  show "sent w4 = sent w3 @ [Get video_url]" by simp
next
  assume both: "download_file e video_url (path_join output_dir (now e @ ''_video.mp4'')) w3 = (True, w4) \<and>
          download_file e audio_url (path_join output_dir (now e @ ''_audio.mp4'')) w4 = (False, w5)"
  then have v: "download_file e video_url (path_join output_dir (now e @ ''_video.mp4'')) w3 = (True, w4)"
    and a: "download_file e audio_url (path_join output_dir (now e @ ''_audio.mp4'')) w4 = (False, w5)"
    by simp_all
  have "files w4 (path_join output_dir (now e @ ''_video.mp4'')) \<noteq> None"
    using v by (rule download_file_success)
  moreover have "files w5 (path_join output_dir (now e @ ''_video.mp4''))
                   = files w4 (path_join output_dir (now e @ ''_video.mp4''))"
    using download_file_other[of "path_join output_dir (now e @ ''_video.mp4'')"
            "path_join output_dir (now e @ ''_audio.mp4'')" e audio_url w4]
          a track_names_differ[of output_dir "now e"]
    by simp
  ultimately have "os_remove (path_join output_dir (now e @ ''_video.mp4'')) (files w5)
      = Return ((files w5)(path_join output_dir (now e @ ''_video.mp4'') := None))"
    by (simp add: os_remove_def)
  then have "download_tracks e output_dir video_url (Some audio_url) pin w3
          = (Inl (Exception ''Failed to download audio track''),
             w5\<lparr>files := (files w5)(path_join output_dir (now e @ ''_video.mp4'') := None)\<rparr>)"
    using audio dir v a by (simp add: download_tracks_def)
  then show "download_pinterest_video e page_url output_dir w
                  = (Inl (Exception ''Failed to download audio track''),
                     w5\<lparr>files := (files w5)(path_join output_dir (now e @ ''_video.mp4'') := None)\<rparr>)"
    using short page streams by (simp add: download_pinterest_video_def)
qed

theorem two_track_failures_witness:
  "download_pinterest_video (scenario (track_net not_found (bytes ''AA''))) ''p'' ''out''
     empty_world
     = (Inl (Exception ''Failed to download video track''),
        \<lparr>sent = track_log @ [Get ''a/s.cmfv''], files = Map.empty\<rparr>) \<and>
   download_pinterest_video (scenario (track_net (bytes ''VV'') not_found)) ''p'' ''out''
     empty_world
     = (Inl (Exception ''Failed to download audio track''),
        \<lparr>sent = track_log @ [Get ''a/s.cmfv'', Get ''a/s.cmfa''],
         files = Map.empty\<rparr>)"
proof -
  let ?e1 = "scenario (track_net not_found (bytes ''AA''))"
  let ?e2 = "scenario (track_net (bytes ''VV'') not_found)"
  let ?w3 = "\<lparr>sent = track_log, files = Map.empty\<rparr>"
  let ?w4 = "\<lparr>sent = track_log @ [Get ''a/s.cmfv''], files = Map.empty\<rparr>"
  let ?w4' = "\<lparr>sent = track_log @ [Get ''a/s.cmfv''], files = [''out/t_video.mp4'' \<mapsto> ''VV'']\<rparr>"
  let ?w5' = "\<lparr>sent = track_log @ [Get ''a/s.cmfv'', Get ''a/s.cmfa''],
              files = [''out/t_video.mp4'' \<mapsto> ''VV'']\<rparr>"
  have audio: "''a/s.cmfa'' \<noteq> []" by simp
  have video_fails: "download_file ?e1 ''a/s.cmfv'' (path_join ''out'' (now ?e1 @ ''_video.mp4'')) ?w3
                    = (False, ?w4)"
    unfolding scenario_names
    by (simp add: download_file_def request_def scenario_defs track_log_def)
  have video_ok: "download_file ?e2 ''a/s.cmfv'' (path_join ''out'' (now ?e2 @ ''_video.mp4'')) ?w3
                    = (True, ?w4')"
    unfolding scenario_names
    by (simp add: download_file_def request_def scenario_defs track_log_def)
  have audio_fails: "download_file ?e2 ''a/s.cmfa'' (path_join ''out'' (now ?e2 @ ''_audio.mp4'')) ?w4'
                    = (False, ?w5')"
    unfolding scenario_names
    by (simp add: download_file_def request_def scenario_defs track_log_def)
  from two_track_failures[OF scenario_short scenario_page scenario_streams audio scenario_dir,
         of not_found "bytes ''AA''" ?w4 ?w4] video_fails
  have one: "download_pinterest_video ?e1 ''p'' ''out'' empty_world
     = (Inl (Exception ''Failed to download video track''), ?w4)"
    by blast
  from two_track_failures[OF scenario_short scenario_page scenario_streams audio scenario_dir,
         of "bytes ''VV''" not_found ?w4' ?w5'] video_ok audio_fails
  have two: "download_pinterest_video ?e2 ''p'' ''out'' empty_world
     = (Inl (Exception ''Failed to download audio track''),
        ?w5'\<lparr>files := (files ?w5')(path_join ''out'' (now ?e2 @ ''_video.mp4'') := None)\<rparr>)"
    by blast
  from one two show ?thesis unfolding scenario_names by simp
qed

section \<open>Properties of extract_pinterest_metadata\<close>

lemmas metadata_defs = extract_pinterest_metadata_def extract_title_def content_of_def
  find_tag_def attr_get_def attr_matches_def has_meta_content_def

lemma no_og_content:
  assumes "\<not> has_meta_content doc kv"
  shows "content_of (find_tag doc ''meta'' [kv]) None = None"
proof (cases "find_tag doc ''meta'' [kv]")
  case None
  then show ?thesis by (simp add: content_of_def)
next
  case (Some e0)
  then have "e0 \<in> set doc" "tag e0 = ''meta''" "attr_matches e0 kv"
    by (auto simp: find_tag_def find_Some_iff in_set_conv_nth)
  with assms have "\<not> truthy (attr_get e0 ''content'')"
    by (auto simp: has_meta_content_def list_ex_iff)
  with Some show ?thesis by (simp add: content_of_def)
qed

text \<open>
  C9, as amended. When no \<open>og:title\<close> element has content and the first
  \<open>twitter:title\<close> element of the document has content, the title is that content, and
  the title element is not consulted.
\<close>

theorem twitter_title_fallback:
  assumes "\<not> has_meta_content doc (''property'', ''og:title'')"
    and "find_tag doc ''meta'' [(''name'', ''twitter:title'')] = Some e"
    and "attr_get e ''content'' = Some c"
    and "c \<noteq> []"
  shows "title (extract_pinterest_metadata doc) = Some c"
  using no_og_content[OF assms(1)] assms(2,3,4)
  by (simp add: extract_pinterest_metadata_def extract_title_def content_of_def)

theorem twitter_title_fallback_witness:
  "find_tag c9_page ''meta'' [(''name'', ''twitter:title'')]
     = Some \<lparr>tag = ''meta'', attrs = [(''name'', ''twitter:title''), (''content'', ''X'')],
             inner_text = []\<rparr> \<and>
   title (extract_pinterest_metadata c9_page) = Some ''X''"
proof -
  let ?e = "\<lparr>tag = ''meta'', attrs = [(''name'', ''twitter:title''), (''content'', ''X'')],
             inner_text = []\<rparr>"
  have og: "\<not> has_meta_content c9_page (''property'', ''og:title'')"
    by (simp add: c9_page_def metadata_defs)
  have tw: "find_tag c9_page ''meta'' [(''name'', ''twitter:title'')] = Some ?e"
    by (simp add: c9_page_def metadata_defs)
  have c: "attr_get ?e ''content'' = Some ''X''" by (simp add: attr_get_def)
  have ne: "''X'' \<noteq> []" by simp
  from twitter_title_fallback[OF og tw c ne] tw show ?thesis by simp
qed

text \<open>
  The claim as written asks only that some \<open>twitter:title\<close> element with content is
  present. \<open>find\<close> returns the first such element; when that one has no content, a
  later one with content is never seen and the title comes from the title element.
\<close>

theorem twitter_title_counterexample:
  "\<not> has_meta_content c9_doc (''property'', ''og:title'') \<and>
   has_meta_content c9_doc (''name'', ''twitter:title'') \<and>
   title (extract_pinterest_metadata c9_doc) = Some ''T''"
  by (simp add: c9_doc_def metadata_defs strip_def is_space_def)

end
